theory Spec2Isabelle
  imports Main
begin

section \<open>JSON values and the JavaScript operators of \<^verbatim>\<open>main.js\<close>\<close>

text \<open>
  Everything the program computes with comes out of \<^verbatim>\<open>response.json()\<close>, so a value is a
  JSON value, or \<^verbatim>\<open>undefined\<close> (what reading a missing property gives). A number is an
  integer (the ids of the API); \<^verbatim>\<open>NaN\<close> cannot come out of a JSON text. An object is its
  list of own properties in insertion order; the first binding of a key is its value
  (a parsed object has each key once).
\<close>

datatype jsval =
    JUndefined
  | JNull
  | JBool bool
  | JNum int
  | JStr string
  | JArr "jsval list"
  | JObj "(string \<times> jsval) list"

datatype js_error = TypeError | SyntaxError

text \<open>Truthiness, as \<^verbatim>\<open>||\<close>, \<^verbatim>\<open>&&\<close>, \<^verbatim>\<open>?:\<close> and \<^verbatim>\<open>if\<close> test it.\<close>

fun truthy :: "jsval \<Rightarrow> bool" where
  "truthy JUndefined = False"
| "truthy JNull = False"
| "truthy (JBool b) = b"
| "truthy (JNum n) = (n \<noteq> 0)"
| "truthy (JStr s) = (s \<noteq> [])"
| "truthy (JArr xs) = True"
| "truthy (JObj kvs) = True"

text \<open>\<^verbatim>\<open>a || b\<close>\<close>

definition js_or :: "jsval \<Rightarrow> jsval \<Rightarrow> jsval" where
  "js_or a b = (if truthy a then a else b)"

text \<open>
  \<^verbatim>\<open>a === b\<close> for two values that come from different responses (or a value and a literal):
  primitives are compared by type and value, arrays and objects by reference, and two
  parsed bodies never share a reference.
\<close>

fun strict_eq :: "jsval \<Rightarrow> jsval \<Rightarrow> bool" where
  "strict_eq JUndefined b = (b = JUndefined)"
| "strict_eq JNull b = (b = JNull)"
| "strict_eq (JBool x) b = (b = JBool x)"
| "strict_eq (JNum x) b = (b = JNum x)"
| "strict_eq (JStr x) b = (b = JStr x)"
| "strict_eq (JArr xs) b = False"
| "strict_eq (JObj kvs) b = False"

definition nullish :: "jsval \<Rightarrow> bool" where
  "nullish v = (v = JUndefined \<or> v = JNull)"

text \<open>The decimal name of an array index, as a property key.\<close>

definition digit_char :: "nat \<Rightarrow> char" where
  "digit_char d = char_of (48 + d)"

function index_key :: "nat \<Rightarrow> string" where
  "index_key n = (if n < 10 then [digit_char n] else index_key (n div 10) @ [digit_char (n mod 10)])"
  by pat_completeness auto
termination
  by (relation "measure (\<lambda>n. n)") auto

declare index_key.simps [simp del]

text \<open>
  The own enumerable properties of a value, which the spread \<^verbatim>\<open>{...v}\<close> copies: those of
  an object, the indexed elements of an array or of a string (its characters), none of
  any other value (\<^verbatim>\<open>{...null}\<close> and \<^verbatim>\<open>{...5}\<close> are the empty object).
\<close>

fun own_props :: "jsval \<Rightarrow> (string \<times> jsval) list" where
  "own_props (JObj kvs) = kvs"
| "own_props (JArr xs) = zip (map index_key [0..<length xs]) xs"
| "own_props (JStr s) = zip (map index_key [0..<length s]) (map (\<lambda>c. JStr [c]) s)"
| "own_props v = []"

text \<open>
  \<^verbatim>\<open>v.k\<close> for a value \<open>v\<close> that is neither \<^verbatim>\<open>null\<close> nor \<^verbatim>\<open>undefined\<close>: an own property, the
  \<^verbatim>\<open>length\<close> of an array or a string, and \<^verbatim>\<open>undefined\<close> otherwise. The source reads the
  names \<^verbatim>\<open>user_id\<close>, \<^verbatim>\<open>group_id\<close>, \<^verbatim>\<open>id\<close>, \<^verbatim>\<open>type\<close>, \<^verbatim>\<open>name\<close>, \<^verbatim>\<open>sex\<close>, \<^verbatim>\<open>home_town\<close>,
  \<^verbatim>\<open>city\<close>, \<^verbatim>\<open>subscribers_count\<close>, \<^verbatim>\<open>relationships\<close> and \<^verbatim>\<open>length\<close>; none of them is
  inherited from a prototype except \<^verbatim>\<open>length\<close>.
\<close>

definition lookup :: "(string \<times> jsval) list \<Rightarrow> string \<Rightarrow> jsval" where
  "lookup kvs k = (case map_of kvs k of Some v \<Rightarrow> v | None \<Rightarrow> JUndefined)"

fun field :: "jsval \<Rightarrow> string \<Rightarrow> jsval" where
  "field (JObj kvs) k = lookup kvs k"
| "field (JArr xs) k =
     (if k = ''length'' then JNum (int (length xs)) else lookup (own_props (JArr xs)) k)"
| "field (JStr s) k =
     (if k = ''length'' then JNum (int (length s)) else lookup (own_props (JStr s)) k)"
| "field v k = JUndefined"

text \<open>\<^verbatim>\<open>v.k\<close> in general: reading a property of \<^verbatim>\<open>null\<close> or \<^verbatim>\<open>undefined\<close> throws.\<close>

definition get_prop :: "jsval \<Rightarrow> string \<Rightarrow> js_error + jsval" where
  "get_prop v k = (if nullish v then Inl TypeError else Inr (field v k))"

text \<open>
  Defining the property \<open>k\<close> in an object literal: an existing key keeps its place and
  takes the new value, a new key goes last.
\<close>

fun put :: "string \<Rightarrow> jsval \<Rightarrow> (string \<times> jsval) list \<Rightarrow> (string \<times> jsval) list" where
  "put k v [] = [(k, v)]"
| "put k v ((k', v') # kvs) = (if k = k' then (k, v) # kvs else (k', v') # put k v kvs)"

text \<open>
  \<^verbatim>\<open>xs.forEach(f)\<close> for a callback that works on the program state and may throw: the
  first throw ends the loop, and what the earlier calls did to the state stays.
\<close>

fun forEach :: "('s \<Rightarrow> 'a \<Rightarrow> js_error option \<times> 's) \<Rightarrow> 'a list \<Rightarrow> 's \<Rightarrow> js_error option \<times> 's" where
  "forEach f [] s = (None, s)"
| "forEach f (x # xs) s =
     (case f s x of
        (None, s') \<Rightarrow> forEach f xs s'
      | (Some e, s') \<Rightarrow> (Some e, s'))"

section \<open>The data loader (\<^verbatim>\<open>logFetch\<close>, \<^verbatim>\<open>fetchNodes\<close>)\<close>

text \<open>
  What the network does to one request: the transport fails, or a response arrives with
  a status and a body that parses as JSON (\<open>Some\<close>) or does not (\<open>None\<close>).
\<close>

datatype http = NetworkError | Reply nat "jsval option"

text \<open>\<^verbatim>\<open>fetch\<close> rejects on a transport failure only: a response of any status resolves.\<close>

fun js_fetch :: "http \<Rightarrow> js_error + nat \<times> jsval option" where
  "js_fetch NetworkError = Inl TypeError"
| "js_fetch (Reply status body) = Inr (status, body)"

fun response_json :: "nat \<times> jsval option \<Rightarrow> js_error + jsval" where
  "response_json (status, None) = Inl SyntaxError"
| "response_json (status, Some d) = Inr d"

text \<open>
  \<^verbatim>\<open>logFetch\<close>, lines 26-36: whatever is thrown inside \<^verbatim>\<open>try\<close> is caught and becomes
  \<^verbatim>\<open>null\<close>. (The lines it prints with \<^verbatim>\<open>console.log\<close> and \<^verbatim>\<open>console.error\<close> are not modelled.)
\<close>

definition logFetch :: "http \<Rightarrow> jsval" where
  "logFetch h =
     (case js_fetch h of
        Inl e \<Rightarrow> JNull
      | Inr response \<Rightarrow>
          (case response_json response of
             Inl e \<Rightarrow> JNull
           | Inr d \<Rightarrow> d))"

text \<open>A transport or parse failure of a request.\<close>

fun failed :: "http \<Rightarrow> bool" where
  "failed NetworkError = True"
| "failed (Reply status None) = True"
| "failed (Reply status (Some d)) = False"

record fetched =
  users :: jsval
  groups :: jsval

text \<open>\<^verbatim>\<open>fetchNodes\<close>, lines 38-45; the arguments are the outcomes of the two requests.\<close>

definition fetchNodes :: "http \<Rightarrow> http \<Rightarrow> fetched" where
  "fetchNodes ru rg =
     \<lparr>users = js_or (logFetch ru) (JArr []), groups = js_or (logFetch rg) (JArr [])\<rparr>"

section \<open>The program state\<close>

text \<open>
  A node is a \<^verbatim>\<open>THREE.Mesh\<close>: its object id (the reference), its position and its
  \<^verbatim>\<open>userData\<close> object. The position is computed in floating point from three draws of
  \<^verbatim>\<open>Math.random()\<close> (lines 65-73 and 92-100); it is a parameter of the model, of a type
  \<open>'p\<close> that is left open.
\<close>

record 'p node =
  obj_id :: nat
  position :: 'p
  userData :: "(string \<times> jsval) list"

text \<open>A \<^verbatim>\<open>THREE.Line\<close> through the points given to \<^verbatim>\<open>setFromPoints\<close>.\<close>

record 'p line =
  line_id :: nat
  points :: "'p list"

datatype 'p obj3d = Mesh "'p node" | Line "'p line"

text \<open>
  The request of \<^verbatim>\<open>fetchNodeRelationships(nodeId, nodeType)\<close>, lines 48-50, and the two
  \<^verbatim>\<open>console.warn\<close> lines of the program (line 56, and line 134 with the entry it names).
\<close>

datatype request = GetRelationships jsval jsval

datatype warning = NoNodes | NoRelationship jsval

text \<open>
  The globals \<^verbatim>\<open>nodes\<close>, \<^verbatim>\<open>lines\<close>, \<^verbatim>\<open>selectedNode\<close>, the children of \<^verbatim>\<open>scene\<close>, the DOM
  element \<^verbatim>\<open>node-info\<close> (the labelled values it shows, when it exists), the
  \<^verbatim>\<open>console.warn\<close> lines, the relationship requests sent, the calls of
  \<^verbatim>\<open>displayNodeInfo\<close> suspended at their \<^verbatim>\<open>await\<close> (oldest first), and the id of the next
  object created. Object ids stand for references: every mesh and line created gets a
  fresh one.
\<close>

record 'p state =
  nodes :: "'p node list"
  lines :: "'p line list"
  selectedNode :: "'p node option"
  scene :: "'p obj3d list"
  node_info :: "(string \<times> jsval) list option"
  warnings :: "warning list"
  requests :: "request list"
  in_flight :: "'p node list"
  next_id :: nat

definition init_state :: "'p state" where
  "init_state =
     \<lparr>nodes = [], lines = [], selectedNode = None, scene = [], node_info = None,
      warnings = [], requests = [], in_flight = [], next_id = 0\<rparr>"

section \<open>The graph builder (\<^verbatim>\<open>createGraph\<close>)\<close>

text \<open>The \<^verbatim>\<open>userData\<close> literals of lines 75-82 and 102, for a record that is not \<^verbatim>\<open>null\<close>.\<close>

definition user_userData :: "jsval \<Rightarrow> (string \<times> jsval) list" where
  "user_userData user =
     put ''city'' (field user ''city'')
       (put ''home_town'' (field user ''home_town'')
         (put ''sex'' (field user ''sex'')
           (put ''user_id'' (js_or (field user ''user_id'') (field user ''id''))
             (put ''type'' (JStr ''user'') (own_props user)))))"

definition group_userData :: "jsval \<Rightarrow> (string \<times> jsval) list" where
  "group_userData grp =
     put ''group_id'' (js_or (field grp ''group_id'') (field grp ''id''))
       (put ''type'' (JStr ''group'') (own_props grp))"

text \<open>
  The body of a \<^verbatim>\<open>forEach\<close> callback of lines 60-105: the mesh is created, then the
  \<^verbatim>\<open>userData\<close> literal is evaluated (reading \<^verbatim>\<open>user.user_id\<close> throws for a \<^verbatim>\<open>null\<close> record),
  then the mesh is pushed on \<^verbatim>\<open>nodes\<close> and added to the scene. \<open>pos i\<close> is the position
  computed for the mesh of object id \<open>i\<close>.
\<close>

definition add_node ::
  "(jsval \<Rightarrow> (string \<times> jsval) list) \<Rightarrow> (nat \<Rightarrow> 'p) \<Rightarrow> 'p state \<Rightarrow> jsval \<Rightarrow> js_error option \<times> 'p state" where
  "add_node mk pos st r =
     (let sphere = \<lparr>obj_id = next_id st, position = pos (next_id st), userData = mk r\<rparr>;
          st1 = st\<lparr>next_id := Suc (next_id st)\<rparr>
      in if nullish r then (Some TypeError, st1)
         else (None, st1\<lparr>nodes := nodes st1 @ [sphere], scene := scene st1 @ [Mesh sphere]\<rparr>))"

text \<open>\<^verbatim>\<open>xs.forEach(f)\<close> on a value: only an array has a \<^verbatim>\<open>forEach\<close> to call.\<close>

definition forEach_val ::
  "('s \<Rightarrow> jsval \<Rightarrow> js_error option \<times> 's) \<Rightarrow> jsval \<Rightarrow> 's \<Rightarrow> js_error option \<times> 's" where
  "forEach_val f v s = (case v of JArr xs \<Rightarrow> forEach f xs s | _ \<Rightarrow> (Some TypeError, s))"

text \<open>
  \<^verbatim>\<open>createGraph\<close>, lines 52-106, given the outcomes of the two collection requests. The
  result is what it threw, if anything, and the state it leaves.
\<close>

definition createGraph :: "(nat \<Rightarrow> 'p) \<Rightarrow> 'p state \<Rightarrow> http \<Rightarrow> http \<Rightarrow> js_error option \<times> 'p state" where
  "createGraph pos st ru rg =
     (let f = fetchNodes ru rg in
      if strict_eq (field (users f) ''length'') (JNum 0) \<and>
         strict_eq (field (groups f) ''length'') (JNum 0)
      then (None, st\<lparr>warnings := warnings st @ [NoNodes]\<rparr>)
      else
        (case forEach_val (add_node user_userData pos) (users f) st of
           (Some e, st1) \<Rightarrow> (Some e, st1)
         | (None, st1) \<Rightarrow> forEach_val (add_node group_userData pos) (groups f) st1))"

section \<open>Selection (\<^verbatim>\<open>clearConnections\<close>, \<^verbatim>\<open>displayNodeInfo\<close>, \<^verbatim>\<open>clearSelection\<close>, \<^verbatim>\<open>onDocumentClick\<close>)\<close>

text \<open>\<^verbatim>\<open>scene.remove(line)\<close>\<close>

definition scene_remove :: "'p obj3d list \<Rightarrow> 'p line \<Rightarrow> 'p obj3d list" where
  "scene_remove sc l = filter (\<lambda>ob. ob \<noteq> Line l) sc"

text \<open>\<^verbatim>\<open>clearConnections\<close>, lines 108-111.\<close>

definition clearConnections :: "'p state \<Rightarrow> 'p state" where
  "clearConnections st = st\<lparr>scene := foldl scene_remove (scene st) (lines st), lines := []\<rparr>"

text \<open>
  The predicate of \<^verbatim>\<open>nodes.find\<close>, lines 122-125. \<^verbatim>\<open>rel.user_id\<close> is read only when the
  node's \<^verbatim>\<open>user_id\<close> is truthy, \<^verbatim>\<open>rel.group_id\<close> only when the first disjunct is falsy and
  the node's \<^verbatim>\<open>group_id\<close> is truthy; either read throws when \<open>rel\<close> is \<^verbatim>\<open>null\<close>.
\<close>

definition id_test :: "'p node \<Rightarrow> jsval \<Rightarrow> string \<Rightarrow> js_error + bool" where
  "id_test n rel k =
     (if truthy (lookup (userData n) k)
      then (case get_prop rel k of
              Inl e \<Rightarrow> Inl e
            | Inr v \<Rightarrow> Inr (strict_eq (lookup (userData n) k) v))
      else Inr False)"

definition matches :: "'p node \<Rightarrow> jsval \<Rightarrow> js_error + bool" where
  "matches n rel =
     (case id_test n rel ''user_id'' of
        Inl e \<Rightarrow> Inl e
      | Inr True \<Rightarrow> Inr True
      | Inr False \<Rightarrow> id_test n rel ''group_id'')"

text \<open>\<^verbatim>\<open>nodes.find(n => ...)\<close>: the first node the predicate accepts, in registry order.\<close>

fun find_node :: "jsval \<Rightarrow> 'p node list \<Rightarrow> js_error + 'p node option" where
  "find_node rel [] = Inr None"
| "find_node rel (n # ns) =
     (case matches n rel of
        Inl e \<Rightarrow> Inl e
      | Inr True \<Rightarrow> Inr (Some n)
      | Inr False \<Rightarrow> find_node rel ns)"

text \<open>The callback of \<^verbatim>\<open>relationships.forEach\<close>, lines 121-136.\<close>

definition draw_relationship :: "'p node \<Rightarrow> 'p state \<Rightarrow> jsval \<Rightarrow> js_error option \<times> 'p state" where
  "draw_relationship node st rel =
     (case find_node rel (nodes st) of
        Inl e \<Rightarrow> (Some e, st)
      | Inr (Some targetNode) \<Rightarrow>
          (let l = \<lparr>line_id = next_id st, points = [position node, position targetNode]\<rparr>
           in (None, st\<lparr>scene := scene st @ [Line l], lines := lines st @ [l],
                         next_id := Suc (next_id st)\<rparr>))
      | Inr None \<Rightarrow> (None, st\<lparr>warnings := warnings st @ [NoRelationship rel]\<rparr>))"

text \<open>
  \<^verbatim>\<open>updateNodeInfoDisplay\<close>, lines 141-162: the element \<^verbatim>\<open>node-info\<close> is found or created,
  filled and appended. Its content is kept as the labelled values, before they are
  turned into text.
\<close>

definition info_content :: "(string \<times> jsval) list \<Rightarrow> (string \<times> jsval) list" where
  "info_content d =
     (if strict_eq (lookup d ''type'') (JStr ''user'') then
        [(''Type'', lookup d ''type''),
         (''ID'', js_or (lookup d ''user_id'') (JStr ''-'')),
         (''Name'', js_or (lookup d ''name'') (JStr ''-'')),
         (''Sex'', js_or (lookup d ''sex'') (JStr ''-'')),
         (''Home Town'', js_or (lookup d ''home_town'') (JStr ''-'')),
         (''City'', js_or (lookup d ''city'') (JStr ''-''))]
      else if strict_eq (lookup d ''type'') (JStr ''group'') then
        [(''Type'', lookup d ''type''),
         (''ID'', js_or (lookup d ''group_id'') (JStr ''-'')),
         (''Name'', js_or (lookup d ''name'') (JStr ''-'')),
         (''Subscribers Count'', js_or (lookup d ''subscribers_count'') (JStr ''0''))]
      else [(''Type'', lookup d ''type'')])"

definition updateNodeInfoDisplay :: "'p state \<Rightarrow> (string \<times> jsval) list \<Rightarrow> 'p state" where
  "updateNodeInfoDisplay st d = st\<lparr>node_info := Some (info_content d)\<rparr>"

text \<open>
  \<^verbatim>\<open>displayNodeInfo\<close>, lines 114-139, in its two parts: up to the \<^verbatim>\<open>await\<close> (the overlay
  is cleared and the request is sent), and from the \<^verbatim>\<open>await\<close> on, given the outcome of
  the request. The request of line 118 is for the node's identity
  \<^verbatim>\<open>data.user_id || data.group_id\<close> and its \<^verbatim>\<open>type\<close>.
\<close>

definition node_identity :: "(string \<times> jsval) list \<Rightarrow> jsval" where
  "node_identity d = js_or (lookup d ''user_id'') (lookup d ''group_id'')"

definition relationship_request :: "'p node \<Rightarrow> request" where
  "relationship_request node =
     (let d = userData node in GetRelationships (node_identity d) (lookup d ''type''))"

definition displayNodeInfo_begin :: "'p state \<Rightarrow> 'p node \<Rightarrow> 'p state" where
  "displayNodeInfo_begin st node =
     (let st1 = clearConnections st
      in st1\<lparr>requests := requests st1 @ [relationship_request node]\<rparr>)"

definition relationships_of :: "http \<Rightarrow> jsval" where
  "relationships_of h =
     (let relationshipsData = logFetch h
      in if truthy relationshipsData then field relationshipsData ''relationships'' else JArr [])"

definition displayNodeInfo_resume :: "'p state \<Rightarrow> 'p node \<Rightarrow> http \<Rightarrow> js_error option \<times> 'p state" where
  "displayNodeInfo_resume st node h =
     (case forEach_val (draw_relationship node) (relationships_of h) st of
        (Some e, st1) \<Rightarrow> (Some e, st1)
      | (None, st1) \<Rightarrow> (None, updateNodeInfoDisplay st1 (userData node)))"

text \<open>\<^verbatim>\<open>displayNodeInfo\<close> when nothing else runs between the request and its outcome.\<close>

definition displayNodeInfo :: "'p state \<Rightarrow> 'p node \<Rightarrow> http \<Rightarrow> js_error option \<times> 'p state" where
  "displayNodeInfo st node h = displayNodeInfo_resume (displayNodeInfo_begin st node) node h"

text \<open>\<^verbatim>\<open>clearSelection\<close>, lines 164-172.\<close>

definition clearSelection :: "'p state \<Rightarrow> 'p state" where
  "clearSelection st =
     (case selectedNode st of
        Some n \<Rightarrow> (clearConnections (st\<lparr>node_info := None\<rparr>))\<lparr>selectedNode := None\<rparr>
      | None \<Rightarrow> st)"

text \<open>
  \<^verbatim>\<open>onDocumentClick\<close>, lines 174-190, given what the raycaster hit first (a node of the
  registry, or nothing). \<^verbatim>\<open>displayNodeInfo\<close> is not awaited: the handler returns with the
  call suspended at its request.
\<close>

definition onDocumentClick :: "'p state \<Rightarrow> 'p node option \<Rightarrow> 'p state" where
  "onDocumentClick st hit =
     (case hit of
        Some n \<Rightarrow>
          (let st1 = (clearSelection st)\<lparr>selectedNode := Some n\<rparr>;
               st2 = displayNodeInfo_begin st1 n
           in st2\<lparr>in_flight := in_flight st2 @ [n]\<rparr>)
      | None \<Rightarrow> clearSelection st)"

section \<open>The event loop\<close>

text \<open>
  The program is single-threaded: a click handler runs to its end, and a suspended
  \<^verbatim>\<open>displayNodeInfo\<close> runs from its \<^verbatim>\<open>await\<close> to its end when the outcome of its request
  arrives. \<open>Arrive k h\<close> is the arrival of outcome \<open>h\<close> for the \<open>k\<close>-th suspended call. An
  error thrown after the \<^verbatim>\<open>await\<close> rejects a promise nobody handles; the state stays as
  the throw left it.
\<close>

datatype 'p event = Click "'p node option" | Arrive nat http

definition step :: "'p state \<Rightarrow> 'p event \<Rightarrow> 'p state" where
  "step st ev =
     (case ev of
        Click hit \<Rightarrow> onDocumentClick st hit
      | Arrive k h \<Rightarrow>
          (if k < length (in_flight st)
           then snd (displayNodeInfo_resume
                  (st\<lparr>in_flight := take k (in_flight st) @ drop (Suc k) (in_flight st)\<rparr>)
                  (in_flight st ! k) h)
           else st))"

text \<open>A pick whose relationship request is answered before anything else happens.\<close>

definition pick :: "'p state \<Rightarrow> 'p node option \<times> http \<Rightarrow> 'p state" where
  "pick st p =
     (case fst p of
        None \<Rightarrow> step st (Click None)
      | Some n \<Rightarrow> step (step st (Click (Some n))) (Arrive (length (in_flight st)) (snd p)))"

text \<open>The line objects among the children of the scene: the edges that are drawn.\<close>

fun drawn :: "'p obj3d list \<Rightarrow> 'p line list" where
  "drawn [] = []"
| "drawn (Mesh n # sc) = drawn sc"
| "drawn (Line l # sc) = l # drawn sc"

section \<open>Auxiliary functions of the statements and proofs\<close>

text \<open>
  The meshes that \<^verbatim>\<open>createGraph\<close> creates for a list of records, the first with object
  id \<open>k\<close>.
\<close>

fun spheres :: "(jsval \<Rightarrow> (string \<times> jsval) list) \<Rightarrow> (nat \<Rightarrow> 'p) \<Rightarrow> nat \<Rightarrow> jsval list \<Rightarrow> 'p node list" where
  "spheres mk pos k [] = []"
| "spheres mk pos k (r # rs) =
     \<lparr>obj_id = k, position = pos k, userData = mk r\<rparr> # spheres mk pos (Suc k) rs"

text \<open>
  What the predicate of \<^verbatim>\<open>nodes.find\<close> computes for an entry that is not \<^verbatim>\<open>null\<close>, where
  no property read can throw: the node has a truthy \<^verbatim>\<open>user_id\<close> strictly equal to the
  entry's, or a truthy \<^verbatim>\<open>group_id\<close> strictly equal to the entry's.
\<close>

definition refers_to :: "jsval \<Rightarrow> 'p node \<Rightarrow> bool" where
  "refers_to rel n \<longleftrightarrow>
     (truthy (lookup (userData n) ''user_id'') \<and>
        strict_eq (lookup (userData n) ''user_id'') (field rel ''user_id'')) \<or>
     (truthy (lookup (userData n) ''group_id'') \<and>
        strict_eq (lookup (userData n) ''group_id'') (field rel ''group_id''))"

text \<open>
  What the loop of lines 121-136 does with a list of entries and the registry \<open>ns\<close>, up
  to the first entry at which it throws: the nodes it draws a line to, the entries it
  warns about, and the error it throws, if any.
\<close>

fun resolve :: "'p node list \<Rightarrow> jsval list \<Rightarrow> 'p node list" where
  "resolve ns [] = []"
| "resolve ns (rel # rels) =
     (case find_node rel ns of
        Inl e \<Rightarrow> []
      | Inr None \<Rightarrow> resolve ns rels
      | Inr (Some t) \<Rightarrow> t # resolve ns rels)"

fun unresolved :: "'p node list \<Rightarrow> jsval list \<Rightarrow> jsval list" where
  "unresolved ns [] = []"
| "unresolved ns (rel # rels) =
     (case find_node rel ns of
        Inl e \<Rightarrow> []
      | Inr None \<Rightarrow> rel # unresolved ns rels
      | Inr (Some t) \<Rightarrow> unresolved ns rels)"

fun resolve_error :: "'p node list \<Rightarrow> jsval list \<Rightarrow> js_error option" where
  "resolve_error ns [] = None"
| "resolve_error ns (rel # rels) =
     (case find_node rel ns of
        Inl e \<Rightarrow> Some e
      | Inr t \<Rightarrow> resolve_error ns rels)"

text \<open>
  The line objects created for a list of target nodes, the first with object id \<open>k\<close>.
\<close>

fun mk_lines :: "'p node \<Rightarrow> nat \<Rightarrow> 'p node list \<Rightarrow> 'p line list" where
  "mk_lines node k [] = []"
| "mk_lines node k (t # ts) =
     \<lparr>line_id = k, points = [position node, position t]\<rparr> # mk_lines node (Suc k) ts"

text \<open>
  The same for the outcome of a relationship request: the target nodes, the error, and
  the end points of the lines drawn from \<open>node\<close> (the overlay of the resolution).
\<close>

definition resolved_targets :: "'p node list \<Rightarrow> http \<Rightarrow> 'p node list" where
  "resolved_targets ns h = (case relationships_of h of JArr rels \<Rightarrow> resolve ns rels | _ \<Rightarrow> [])"

definition resolution_error :: "'p node list \<Rightarrow> http \<Rightarrow> js_error option" where
  "resolution_error ns h =
     (case relationships_of h of JArr rels \<Rightarrow> resolve_error ns rels | _ \<Rightarrow> Some TypeError)"

definition overlay :: "'p node list \<Rightarrow> 'p node \<Rightarrow> http \<Rightarrow> 'p list list" where
  "overlay ns node h = map (\<lambda>t. [position node, position t]) (resolved_targets ns h)"

text \<open>
  A state at rest: no call of \<^verbatim>\<open>displayNodeInfo\<close> is suspended, the lines of the scene
  are the ones the program tracks in \<^verbatim>\<open>lines\<close>, and with no node selected there is no
  line and no info panel.
\<close>

definition consistent :: "'p state \<Rightarrow> bool" where
  "consistent st \<longleftrightarrow>
     in_flight st = [] \<and> drawn (scene st) = lines st \<and>
     (selectedNode st = None \<longrightarrow> lines st = [] \<and> node_info st = None)"

text \<open>
  The state after the page has loaded the graph and a sequence of picks, each answered
  before the next event.
\<close>

definition run :: "(nat \<Rightarrow> 'p) \<Rightarrow> http \<Rightarrow> http \<Rightarrow> ('p node option \<times> http) list \<Rightarrow> 'p state" where
  "run pos ru rg ps = foldl pick (snd (createGraph pos init_state ru rg)) ps"

text \<open>
  A small graph for the examples: the users \<^verbatim>\<open>{user_id: 1}\<close> and \<^verbatim>\<open>{id: 0}\<close>, the group
  \<^verbatim>\<open>{group_id: 7}\<close>, the mesh of object id \<open>i\<close> at position \<open>i\<close>; its three nodes
  \<open>demo_node 0\<close>, \<open>demo_node 1\<close> and \<open>demo_node 2\<close>; and a relationship list that refers
  to the group, to the identity \<open>0\<close> and to the user \<open>1\<close>.
\<close>

definition demo_users :: http where
  "demo_users = Reply 200 (Some (JArr [JObj [(''user_id'', JNum 1)], JObj [(''id'', JNum 0)]]))"

definition demo_groups :: http where
  "demo_groups = Reply 200 (Some (JArr [JObj [(''group_id'', JNum 7)]]))"

definition demo_graph :: "nat state" where
  "demo_graph = snd (createGraph (\<lambda>i. i) init_state demo_users demo_groups)"

definition demo_node :: "nat \<Rightarrow> nat node" where
  "demo_node i = nodes demo_graph ! i"

definition demo_relationships :: http where
  "demo_relationships = Reply 200 (Some (JObj [(''relationships'',
      JArr [JObj [(''group_id'', JNum 7)], JObj [(''user_id'', JNum 0)], JObj [(''user_id'', JNum 1)]])]))"

section \<open>Facts about objects and the graph builder\<close>

lemma lookup_put: "lookup (put k v kvs) k' = (if k' = k then v else lookup kvs k')"
  by (induction kvs) (auto simp: lookup_def)

lemma map_userData_spheres: "map userData (spheres mk pos k rs) = map mk rs"
  by (induction rs arbitrary: k) auto

lemma map_of_userData_spheres:
  "map (\<lambda>n. f (userData n)) (spheres mk pos k rs) = map (\<lambda>r. f (mk r)) rs"
  by (induction rs arbitrary: k) auto

lemma length_spheres: "length (spheres mk pos k rs) = length rs"
  by (induction rs arbitrary: k) auto

lemma forEach_add_node:
  "\<forall>r\<in>set rs. \<not> nullish r \<Longrightarrow>
   forEach (add_node mk pos) rs st =
     (None, st\<lparr>nodes := nodes st @ spheres mk pos (next_id st) rs,
               scene := scene st @ map Mesh (spheres mk pos (next_id st) rs),
               next_id := next_id st + length rs\<rparr>)"
proof (induction rs arbitrary: st)
  case Nil
  then show ?case by simp
next
  case (Cons r rs)
  then show ?case by (simp add: add_node_def Let_def)
qed

lemma users_fetchNodes_array: "users (fetchNodes (Reply s (Some (JArr us))) rg) = JArr us"
  by (simp add: fetchNodes_def logFetch_def js_or_def)

lemma groups_fetchNodes_array: "groups (fetchNodes ru (Reply s (Some (JArr gs)))) = JArr gs"
  by (simp add: fetchNodes_def logFetch_def js_or_def)

lemma logFetch_failed: "failed h \<Longrightarrow> logFetch h = JNull"
  by (cases h rule: failed.cases) (simp_all add: logFetch_def)

lemma users_fetchNodes_failed: "failed ru \<Longrightarrow> users (fetchNodes ru rg) = JArr []"
  by (simp add: fetchNodes_def logFetch_failed js_or_def)

lemma groups_fetchNodes_failed: "failed rg \<Longrightarrow> groups (fetchNodes ru rg) = JArr []"
  by (simp add: fetchNodes_def logFetch_failed js_or_def)

lemma drawn_append: "drawn (sc @ sc') = drawn sc @ drawn sc'"
  by (induction sc rule: drawn.induct) auto

lemma drawn_map_Mesh: "drawn (map Mesh ns) = []"
  by (induction ns) auto

lemma drawn_map_Line: "drawn (map Line ls) = ls"
  by (induction ls) auto

lemma createGraph_arrays_eq:
  assumes u: "users (fetchNodes ru rg) = JArr us" and g: "groups (fetchNodes ru rg) = JArr gs"
    and nu: "\<forall>r\<in>set us. \<not> nullish r" and ng: "\<forall>r\<in>set gs. \<not> nullish r"
  shows "createGraph pos st ru rg =
     (None,
      if us = [] \<and> gs = [] then st\<lparr>warnings := warnings st @ [NoNodes]\<rparr>
      else st\<lparr>nodes := nodes st @ spheres user_userData pos (next_id st) us
                       @ spheres group_userData pos (next_id st + length us) gs,
              scene := scene st @ map Mesh (spheres user_userData pos (next_id st) us)
                       @ map Mesh (spheres group_userData pos (next_id st + length us) gs),
              next_id := next_id st + length us + length gs\<rparr>)"
proof (cases "us = [] \<and> gs = []")
  case True
  then show ?thesis using u g by (simp add: createGraph_def)
next
  case False
  have test: "\<not> (strict_eq (field (JArr us) ''length'') (JNum 0) \<and>
                 strict_eq (field (JArr gs) ''length'') (JNum 0))"
    using False by auto
  have "createGraph pos st ru rg =
      (case forEach_val (add_node user_userData pos) (JArr us) st of
         (Some e, st1) \<Rightarrow> (Some e, st1)
       | (None, st1) \<Rightarrow> forEach_val (add_node group_userData pos) (JArr gs) st1)"
    unfolding createGraph_def Let_def u g using test by (simp only: if_False)
  then show ?thesis
    using False
    by (simp add: forEach_val_def forEach_add_node [OF nu] forEach_add_node [OF ng])
qed

lemma createGraph_arrays:
  assumes u: "users (fetchNodes ru rg) = JArr us" and g: "groups (fetchNodes ru rg) = JArr gs"
    and nu: "\<forall>r\<in>set us. \<not> nullish r" and ng: "\<forall>r\<in>set gs. \<not> nullish r"
  shows "fst (createGraph pos st ru rg) = None"
    and "nodes (snd (createGraph pos st ru rg)) =
           nodes st @ spheres user_userData pos (next_id st) us
                    @ spheres group_userData pos (next_id st + length us) gs"
    and "lines (snd (createGraph pos st ru rg)) = lines st"
    and "selectedNode (snd (createGraph pos st ru rg)) = selectedNode st"
    and "node_info (snd (createGraph pos st ru rg)) = node_info st"
    and "in_flight (snd (createGraph pos st ru rg)) = in_flight st"
    and "drawn (scene (snd (createGraph pos st ru rg))) = drawn (scene st)"
  by (simp_all add: createGraph_arrays_eq [OF u g nu ng] drawn_append drawn_map_Mesh)

lemma forEach_add_node_keeps:
  "forEach (add_node mk pos) rs st = (e, st') \<Longrightarrow>
   lines st' = lines st \<and> selectedNode st' = selectedNode st \<and> node_info st' = node_info st \<and>
   in_flight st' = in_flight st \<and> drawn (scene st') = drawn (scene st)"
proof (induction rs arbitrary: st)
  case Nil
  then show ?case by simp
next
  case (Cons r rs)
  show ?case
  proof (cases "nullish r")
    case True
    then have "add_node mk pos st r = (Some TypeError, st\<lparr>next_id := Suc (next_id st)\<rparr>)"
      by (simp add: add_node_def Let_def)
    then show ?thesis using Cons.prems by auto
  next
    case False
    then have "add_node mk pos st r =
        (None, st\<lparr>next_id := Suc (next_id st),
            nodes := nodes st @ [\<lparr>obj_id = next_id st, position = pos (next_id st), userData = mk r\<rparr>],
            scene := scene st @ [Mesh \<lparr>obj_id = next_id st, position = pos (next_id st), userData = mk r\<rparr>]\<rparr>)"
      by (simp add: add_node_def Let_def)
    then have "forEach (add_node mk pos) rs
        (st\<lparr>next_id := Suc (next_id st),
            nodes := nodes st @ [\<lparr>obj_id = next_id st, position = pos (next_id st), userData = mk r\<rparr>],
            scene := scene st @ [Mesh \<lparr>obj_id = next_id st, position = pos (next_id st), userData = mk r\<rparr>]\<rparr>)
        = (e, st')"
      using Cons.prems by simp
    from Cons.IH [OF this] show ?thesis by (simp add: drawn_append)
  qed
qed

lemma forEach_val_add_node_keeps:
  "forEach_val (add_node mk pos) v st = (e, st') \<Longrightarrow>
   lines st' = lines st \<and> selectedNode st' = selectedNode st \<and> node_info st' = node_info st \<and>
   in_flight st' = in_flight st \<and> drawn (scene st') = drawn (scene st)"
  by (cases v) (auto simp: forEach_val_def dest: forEach_add_node_keeps)

lemma createGraph_keeps:
  "lines (snd (createGraph pos st ru rg)) = lines st \<and>
   selectedNode (snd (createGraph pos st ru rg)) = selectedNode st \<and>
   node_info (snd (createGraph pos st ru rg)) = node_info st \<and>
   in_flight (snd (createGraph pos st ru rg)) = in_flight st \<and>
   drawn (scene (snd (createGraph pos st ru rg))) = drawn (scene st)"
proof (cases "forEach_val (add_node user_userData pos) (users (fetchNodes ru rg)) st")
  case (Pair e st1)
  note u = forEach_val_add_node_keeps [OF Pair]
  show ?thesis
  proof (cases "forEach_val (add_node group_userData pos) (groups (fetchNodes ru rg)) st1")
    case g: (Pair e2 st2)
    note v = forEach_val_add_node_keeps [OF g]
    show ?thesis
      using u v by (cases e) (simp_all add: createGraph_def Let_def Pair g)
  qed
qed






section \<open>Facts about resolution\<close>

lemma matches_not_nullish: "\<not> nullish rel \<Longrightarrow> matches n rel = Inr (refers_to rel n)"
  by (auto simp: matches_def id_test_def get_prop_def refers_to_def split: bool.splits)

lemma find_node_not_nullish: "\<not> nullish rel \<Longrightarrow> find_node rel ns = Inr (List.find (refers_to rel) ns)"
  by (induction ns) (auto simp: matches_not_nullish)

lemma find_node_cases:
  assumes "\<not> nullish rel"
  shows "(\<exists>n\<in>set ns. refers_to rel n) \<Longrightarrow>
           \<exists>t. find_node rel ns = Inr (Some t) \<and> List.find (refers_to rel) ns = Some t"
    and "\<not> (\<exists>n\<in>set ns. refers_to rel n) \<Longrightarrow>
           find_node rel ns = Inr None \<and> List.find (refers_to rel) ns = None"
proof -
  show "\<exists>t. find_node rel ns = Inr (Some t) \<and> List.find (refers_to rel) ns = Some t"
    if "\<exists>n\<in>set ns. refers_to rel n"
  proof (cases "List.find (refers_to rel) ns")
    case None
    then show ?thesis using that by (simp add: find_None_iff)
  next
    case (Some t)
    then show ?thesis by (simp add: find_node_not_nullish [OF assms])
  qed
  show "find_node rel ns = Inr None \<and> List.find (refers_to rel) ns = None"
    if "\<not> (\<exists>n\<in>set ns. refers_to rel n)"
    using that by (simp add: find_node_not_nullish [OF assms] find_None_iff)
qed

lemma resolve_not_nullish:
  "\<forall>rel\<in>set rels. \<not> nullish rel \<Longrightarrow>
   resolve ns rels =
     concat (map (\<lambda>rel. case List.find (refers_to rel) ns of Some t \<Rightarrow> [t] | None \<Rightarrow> []) rels)"
proof (induction rels)
  case Nil
  then show ?case by simp
next
  case (Cons rel rels)
  then have f: "find_node rel ns = Inr (List.find (refers_to rel) ns)"
    by (simp add: find_node_not_nullish)
  show ?case using Cons f by (cases "List.find (refers_to rel) ns") simp_all
qed

lemma unresolved_not_nullish:
  "\<forall>rel\<in>set rels. \<not> nullish rel \<Longrightarrow>
   unresolved ns rels = filter (\<lambda>rel. \<not> (\<exists>n\<in>set ns. refers_to rel n)) rels"
proof (induction rels)
  case Nil
  then show ?case by simp
next
  case (Cons rel rels)
  then have n: "\<not> nullish rel" by simp
  show ?case
  proof (cases "\<exists>n\<in>set ns. refers_to rel n")
    case True
    from find_node_cases(1) [OF n True] show ?thesis using Cons True by auto
  next
    case False
    from find_node_cases(2) [OF n False] show ?thesis using Cons False by auto
  qed
qed

lemma length_resolve_not_nullish:
  "\<forall>rel\<in>set rels. \<not> nullish rel \<Longrightarrow>
   length (resolve ns rels) = length (filter (\<lambda>rel. \<exists>n\<in>set ns. refers_to rel n) rels)"
proof (induction rels)
  case Nil
  then show ?case by simp
next
  case (Cons rel rels)
  then have n: "\<not> nullish rel" by simp
  show ?case
  proof (cases "\<exists>n\<in>set ns. refers_to rel n")
    case True
    from find_node_cases(1) [OF n True] show ?thesis using Cons True by auto
  next
    case False
    from find_node_cases(2) [OF n False] show ?thesis using Cons False by auto
  qed
qed

lemma resolve_error_not_nullish:
  "\<forall>rel\<in>set rels. \<not> nullish rel \<Longrightarrow> resolve_error ns rels = None"
  by (induction rels) (simp_all add: find_node_not_nullish)



lemma matches_truthy: "matches n rel = Inr True \<Longrightarrow> truthy (node_identity (userData n))"
  by (auto simp: matches_def id_test_def node_identity_def js_or_def
      split: if_splits sum.splits bool.splits)

lemma find_node_truthy: "find_node rel ns = Inr (Some t) \<Longrightarrow> truthy (node_identity (userData t))"
proof (induction ns)
  case Nil
  then show ?case by simp
next
  case (Cons n ns)
  show ?case
  proof (cases "matches n rel")
    case (Inl e)
    then show ?thesis using Cons.prems by simp
  next
    case (Inr b)
    then show ?thesis
      using Cons matches_truthy [of n rel] by (cases b) auto
  qed
qed

lemma resolve_truthy: "t \<in> set (resolve ns rels) \<Longrightarrow> truthy (node_identity (userData t))"
proof (induction rels)
  case Nil
  then show ?case by simp
next
  case (Cons rel rels)
  then show ?case
    using find_node_truthy [of rel ns]
    by (auto split: sum.splits option.splits)
qed

lemma map_points_mk_lines:
  "map points (mk_lines node k ts) = map (\<lambda>t. [position node, position t]) ts"
  by (induction ts arbitrary: k) auto

lemma length_mk_lines: "length (mk_lines node k ts) = length ts"
  by (induction ts arbitrary: k) auto

lemma draw_relationship_cases:
  "find_node rel (nodes st) = Inl e \<Longrightarrow> draw_relationship node st rel = (Some e, st)"
  "find_node rel (nodes st) = Inr None \<Longrightarrow>
     draw_relationship node st rel = (None, st\<lparr>warnings := warnings st @ [NoRelationship rel]\<rparr>)"
  "find_node rel (nodes st) = Inr (Some t) \<Longrightarrow>
     draw_relationship node st rel =
       (None, st\<lparr>scene := scene st @ [Line \<lparr>line_id = next_id st, points = [position node, position t]\<rparr>],
                 lines := lines st @ [\<lparr>line_id = next_id st, points = [position node, position t]\<rparr>],
                 next_id := Suc (next_id st)\<rparr>)"
  by (simp_all add: draw_relationship_def Let_def)

lemma forEach_draw:
  "forEach (draw_relationship node) rels st =
     (resolve_error (nodes st) rels,
      st\<lparr>scene := scene st @ map Line (mk_lines node (next_id st) (resolve (nodes st) rels)),
         lines := lines st @ mk_lines node (next_id st) (resolve (nodes st) rels),
         warnings := warnings st @ map NoRelationship (unresolved (nodes st) rels),
         next_id := next_id st + length (resolve (nodes st) rels)\<rparr>)"
proof (induction rels arbitrary: st)
  case Nil
  then show ?case by simp
next
  case (Cons rel rels)
  show ?case
  proof (cases "find_node rel (nodes st)")
    case (Inl e)
    then show ?thesis by (simp add: draw_relationship_cases)
  next
    case (Inr r)
    then show ?thesis
      by (cases r) (simp_all add: draw_relationship_cases Cons.IH)
  qed
qed

lemma resume_eq:
  "displayNodeInfo_resume st node h =
     (resolution_error (nodes st) h,
      st\<lparr>scene := scene st @ map Line (mk_lines node (next_id st) (resolved_targets (nodes st) h)),
         lines := lines st @ mk_lines node (next_id st) (resolved_targets (nodes st) h),
         warnings := warnings st @ map NoRelationship
            (case relationships_of h of JArr rels \<Rightarrow> unresolved (nodes st) rels | _ \<Rightarrow> []),
         next_id := next_id st + length (resolved_targets (nodes st) h),
         node_info := (if resolution_error (nodes st) h = None
                       then Some (info_content (userData node)) else node_info st)\<rparr>)"
  by (cases "relationships_of h")
     (auto simp: displayNodeInfo_resume_def forEach_val_def forEach_draw resolved_targets_def
        resolution_error_def updateNodeInfoDisplay_def split: option.splits)

lemma relationships_of_falsy: "\<not> truthy (logFetch h) \<Longrightarrow> relationships_of h = JArr []"
  by (simp add: relationships_of_def)

section \<open>Facts about selection\<close>

lemma drawn_scene_remove: "drawn (scene_remove sc l) = filter (\<lambda>x. x \<noteq> l) (drawn sc)"
  by (induction sc rule: drawn.induct) (auto simp: scene_remove_def)

lemma drawn_foldl_scene_remove:
  "drawn (foldl scene_remove sc ls) = filter (\<lambda>x. x \<notin> set ls) (drawn sc)"
proof (induction ls arbitrary: sc)
  case Nil
  then show ?case by simp
next
  case (Cons l ls)
  have "filter (\<lambda>x. x \<notin> set ls) (filter (\<lambda>x. x \<noteq> l) (drawn sc)) =
        filter (\<lambda>x. x \<notin> set (l # ls)) (drawn sc)"
    by (induction "drawn sc") auto
  then show ?case by (simp add: Cons.IH drawn_scene_remove)
qed

lemma clearConnections_fields:
  "nodes (clearConnections st) = nodes st"
  "lines (clearConnections st) = []"
  "selectedNode (clearConnections st) = selectedNode st"
  "node_info (clearConnections st) = node_info st"
  "warnings (clearConnections st) = warnings st"
  "requests (clearConnections st) = requests st"
  "in_flight (clearConnections st) = in_flight st"
  "next_id (clearConnections st) = next_id st"
  "drawn (scene (clearConnections st)) = filter (\<lambda>x. x \<notin> set (lines st)) (drawn (scene st))"
  by (simp_all add: clearConnections_def drawn_foldl_scene_remove)

lemma displayNodeInfo_eq:
  "displayNodeInfo st node h =
     (resolution_error (nodes st) h,
      st\<lparr>scene := scene (clearConnections st) @
                  map Line (mk_lines node (next_id st) (resolved_targets (nodes st) h)),
         lines := mk_lines node (next_id st) (resolved_targets (nodes st) h),
         requests := requests st @ [relationship_request node],
         warnings := warnings st @ map NoRelationship
            (case relationships_of h of JArr rels \<Rightarrow> unresolved (nodes st) rels | _ \<Rightarrow> []),
         next_id := next_id st + length (resolved_targets (nodes st) h),
         node_info := (if resolution_error (nodes st) h = None
                       then Some (info_content (userData node)) else node_info st)\<rparr>)"
  by (cases "relationships_of h")
     (simp_all add: displayNodeInfo_def resume_eq displayNodeInfo_begin_def Let_def
        clearConnections_def)

lemma clearSelection_consistent:
  assumes "drawn (scene st) = lines st"
    and "selectedNode st = None \<longrightarrow> lines st = [] \<and> node_info st = None"
  shows "nodes (clearSelection st) = nodes st"
    and "lines (clearSelection st) = []"
    and "selectedNode (clearSelection st) = None"
    and "node_info (clearSelection st) = None"
    and "requests (clearSelection st) = requests st"
    and "in_flight (clearSelection st) = in_flight st"
    and "drawn (scene (clearSelection st)) = []"
  using assms
  by (auto simp: clearSelection_def clearConnections_fields clearConnections_def [where st = "st\<lparr>node_info := None\<rparr>"] drawn_foldl_scene_remove split: option.splits)

lemma click_node_consistent:
  assumes "drawn (scene st) = lines st"
    and "selectedNode st = None \<longrightarrow> lines st = [] \<and> node_info st = None"
  shows "nodes (onDocumentClick st (Some n)) = nodes st"
    and "lines (onDocumentClick st (Some n)) = []"
    and "selectedNode (onDocumentClick st (Some n)) = Some n"
    and "node_info (onDocumentClick st (Some n)) = None"
    and "requests (onDocumentClick st (Some n)) = requests st @ [relationship_request n]"
    and "in_flight (onDocumentClick st (Some n)) = in_flight st @ [n]"
    and "drawn (scene (onDocumentClick st (Some n))) = []"
  using clearSelection_consistent [OF assms]
  by (simp_all add: onDocumentClick_def displayNodeInfo_begin_def Let_def clearConnections_def)

lemma pick_node:
  assumes "consistent st"
  shows "consistent (pick st (Some n, h))"
    and "nodes (pick st (Some n, h)) = nodes st"
    and "selectedNode (pick st (Some n, h)) = Some n"
    and "map points (drawn (scene (pick st (Some n, h)))) = overlay (nodes st) n h"
    and "node_info (pick st (Some n, h)) =
           (if resolution_error (nodes st) h = None then Some (info_content (userData n)) else None)"
    and "requests (pick st (Some n, h)) = requests st @ [relationship_request n]"
proof -
  have a: "drawn (scene st) = lines st"
    and b: "selectedNode st = None \<longrightarrow> lines st = [] \<and> node_info st = None"
    and c: "in_flight st = []"
    using assms by (simp_all add: consistent_def)
  note click = click_node_consistent [OF a b, of n]
  have p: "pick st (Some n, h) =
      snd (displayNodeInfo_resume ((onDocumentClick st (Some n))\<lparr>in_flight := []\<rparr>) n h)"
    by (simp add: pick_def step_def click c)
  show "consistent (pick st (Some n, h))"
    by (simp add: p resume_eq consistent_def click drawn_append drawn_map_Line)
  show "nodes (pick st (Some n, h)) = nodes st"
    by (simp add: p resume_eq click)
  show "selectedNode (pick st (Some n, h)) = Some n"
    by (simp add: p resume_eq click)
  show "map points (drawn (scene (pick st (Some n, h)))) = overlay (nodes st) n h"
    by (simp add: p resume_eq click drawn_append drawn_map_Line map_points_mk_lines overlay_def)
  show "node_info (pick st (Some n, h)) =
           (if resolution_error (nodes st) h = None then Some (info_content (userData n)) else None)"
    by (simp add: p resume_eq click)
  show "requests (pick st (Some n, h)) = requests st @ [relationship_request n]"
    by (simp add: p resume_eq click)
qed

lemma pick_nothing:
  assumes "consistent st"
  shows "consistent (pick st (None, h))"
    and "nodes (pick st (None, h)) = nodes st"
    and "selectedNode (pick st (None, h)) = None"
proof -
  have a: "drawn (scene st) = lines st"
    and b: "selectedNode st = None \<longrightarrow> lines st = [] \<and> node_info st = None"
    and c: "in_flight st = []"
    using assms by (simp_all add: consistent_def)
  note clear = clearSelection_consistent [OF a b]
  have p: "pick st (None, h) = clearSelection st"
    by (simp add: pick_def step_def onDocumentClick_def)
  show "consistent (pick st (None, h))"
    by (simp add: p consistent_def clear c)
  show "nodes (pick st (None, h)) = nodes st"
    by (simp add: p clear)
  show "selectedNode (pick st (None, h)) = None"
    by (simp add: p clear)
qed

lemma pick_consistent: "consistent st \<Longrightarrow> consistent (pick st p)"
  by (cases p; cases "fst p") (auto simp: pick_node(1) pick_nothing(1))

lemma pick_nodes: "consistent st \<Longrightarrow> nodes (pick st p) = nodes st"
  by (cases p; cases "fst p") (auto simp: pick_node(2) pick_nothing(2))

lemma foldl_pick_consistent: "consistent st \<Longrightarrow> consistent (foldl pick st ps)"
  by (induction ps arbitrary: st) (auto simp: pick_consistent)

lemma foldl_pick_nodes: "consistent st \<Longrightarrow> nodes (foldl pick st ps) = nodes st"
  by (induction ps arbitrary: st) (auto simp: pick_consistent pick_nodes)

lemma consistent_loaded: "consistent (snd (createGraph pos init_state ru rg))"
  using createGraph_keeps [of pos init_state ru rg]
  by (simp add: consistent_def init_state_def)

lemma run_consistent: "consistent (run pos ru rg ps)"
  by (simp add: run_def foldl_pick_consistent consistent_loaded)

section \<open>The example graph, evaluated\<close>

lemmas eval_defs = createGraph_def fetchNodes_def logFetch_def js_or_def init_state_def
  forEach_val_def add_node_def nullish_def user_userData_def group_userData_def lookup_def
  step_def onDocumentClick_def clearSelection_def displayNodeInfo_begin_def clearConnections_def
  displayNodeInfo_resume_def relationships_of_def draw_relationship_def matches_def id_test_def
  get_prop_def updateNodeInfoDisplay_def info_content_def relationship_request_def node_identity_def
  scene_remove_def displayNodeInfo_def pick_def Let_def

lemma demo_graph_eq:
  "demo_graph =
    \<lparr>nodes =
      [\<lparr>obj_id = 0, position = 0,
         userData = [(''user_id'', JNum 1), (''type'', JStr ''user''), (''sex'', JUndefined),
                     (''home_town'', JUndefined), (''city'', JUndefined)]\<rparr>,
       \<lparr>obj_id = 1, position = 1,
         userData = [(''id'', JNum 0), (''type'', JStr ''user''), (''user_id'', JNum 0),
                     (''sex'', JUndefined), (''home_town'', JUndefined), (''city'', JUndefined)]\<rparr>,
       \<lparr>obj_id = 2, position = 2,
         userData = [(''group_id'', JNum 7), (''type'', JStr ''group'')]\<rparr>],
     lines = [], selectedNode = None,
     scene =
      [Mesh \<lparr>obj_id = 0, position = 0,
         userData = [(''user_id'', JNum 1), (''type'', JStr ''user''), (''sex'', JUndefined),
                     (''home_town'', JUndefined), (''city'', JUndefined)]\<rparr>,
       Mesh \<lparr>obj_id = 1, position = 1,
         userData = [(''id'', JNum 0), (''type'', JStr ''user''), (''user_id'', JNum 0),
                     (''sex'', JUndefined), (''home_town'', JUndefined), (''city'', JUndefined)]\<rparr>,
       Mesh \<lparr>obj_id = 2, position = 2,
         userData = [(''group_id'', JNum 7), (''type'', JStr ''group'')]\<rparr>],
     node_info = None, warnings = [], requests = [], in_flight = [], next_id = 3\<rparr>"
  by (simp add: demo_graph_def demo_users_def demo_groups_def eval_defs)

lemma run_demo: "run (\<lambda>i. i) demo_users demo_groups ps = foldl pick demo_graph ps"
  by (simp add: run_def demo_graph_def)

section \<open>The data loader: claim C3\<close>

text \<open>
  Claim C3. \<^verbatim>\<open>fetchNodes\<close> has no throwing path: its result is a plain pair of
  collections, because \<^verbatim>\<open>logFetch\<close> turns whatever its request throws into \<^verbatim>\<open>null\<close>. A
  collection whose request fails in transport or whose body does not parse becomes the
  empty list; each collection depends on its own request only; and when one request
  fails so, the graph is built from the records of the other (records other than
  \<^verbatim>\<open>null\<close>, whose properties can be read).
\<close>

theorem fetchNodes_degrades_independently:
  "(failed ru \<longrightarrow> users (fetchNodes ru rg) = JArr []) \<and>
   (failed rg \<longrightarrow> groups (fetchNodes ru rg) = JArr []) \<and>
   users (fetchNodes ru rg) = users (fetchNodes ru rg') \<and>
   groups (fetchNodes ru rg) = groups (fetchNodes ru' rg) \<and>
   (failed ru \<and> (\<forall>r\<in>set gs. \<not> nullish r) \<longrightarrow>
      fst (createGraph pos st ru (Reply sg (Some (JArr gs)))) = None \<and>
      map userData (nodes (snd (createGraph pos st ru (Reply sg (Some (JArr gs)))))) =
        map userData (nodes st) @ map group_userData gs) \<and>
   (failed rg \<and> (\<forall>r\<in>set us. \<not> nullish r) \<longrightarrow>
      fst (createGraph pos st (Reply su (Some (JArr us))) rg) = None \<and>
      map userData (nodes (snd (createGraph pos st (Reply su (Some (JArr us))) rg))) =
        map userData (nodes st) @ map user_userData us)"
proof -
  have a: "failed ru \<longrightarrow> users (fetchNodes ru rg) = JArr []"
    by (simp add: users_fetchNodes_failed)
  have b: "failed rg \<longrightarrow> groups (fetchNodes ru rg) = JArr []"
    by (simp add: groups_fetchNodes_failed)
  have c: "users (fetchNodes ru rg) = users (fetchNodes ru rg')"
    by (simp add: fetchNodes_def)
  have d: "groups (fetchNodes ru rg) = groups (fetchNodes ru' rg)"
    by (simp add: fetchNodes_def)
  have e: "fst (createGraph pos st ru (Reply sg (Some (JArr gs)))) = None \<and>
      map userData (nodes (snd (createGraph pos st ru (Reply sg (Some (JArr gs)))))) =
        map userData (nodes st) @ map group_userData gs"
    if "failed ru" "\<forall>r\<in>set gs. \<not> nullish r"
    using createGraph_arrays(1,2) [OF users_fetchNodes_failed [OF that(1)]
        groups_fetchNodes_array _ that(2), of pos st sg]
    by (simp add: map_userData_spheres)
  have f: "fst (createGraph pos st (Reply su (Some (JArr us))) rg) = None \<and>
      map userData (nodes (snd (createGraph pos st (Reply su (Some (JArr us))) rg))) =
        map userData (nodes st) @ map user_userData us"
    if "failed rg" "\<forall>r\<in>set us. \<not> nullish r"
    using createGraph_arrays(1,2) [OF users_fetchNodes_array
        groups_fetchNodes_failed [OF that(1)] that(2), of pos st su]
    by (simp add: map_userData_spheres)
  from a b c d e f show ?thesis by blast
qed

text \<open>
  The theorem at a failed users request and a groups response with one record.
\<close>

theorem fetchNodes_degrades_independently_witness:
  "failed NetworkError \<and> \<not> nullish (JObj [(''group_id'', JNum 7)]) \<and>
   users (fetchNodes NetworkError (Reply 200 (Some (JArr [JObj [(''group_id'', JNum 7)]])))) = JArr [] \<and>
   groups (fetchNodes NetworkError (Reply 200 (Some (JArr [JObj [(''group_id'', JNum 7)]])))) =
     JArr [JObj [(''group_id'', JNum 7)]] \<and>
   map userData (nodes (snd (createGraph (\<lambda>i. i) (init_state :: nat state) NetworkError
       (Reply 200 (Some (JArr [JObj [(''group_id'', JNum 7)]])))))) =
     [[(''group_id'', JNum 7), (''type'', JStr ''group'')]]"
  using fetchNodes_degrades_independently
    [of NetworkError "Reply 200 (Some (JArr [JObj [(''group_id'', JNum 7)]]))"
        NetworkError NetworkError "[JObj [(''group_id'', JNum 7)]]" "\<lambda>i. i" "init_state :: nat state" 200 "[]" 200]
  by (simp add: nullish_def groups_fetchNodes_array init_state_def group_userData_def js_or_def lookup_def)

section \<open>The graph builder: claims C5, C8 and C9\<close>

text \<open>
  Claim C5. For arrays of user and group records (none of them \<^verbatim>\<open>null\<close>),
  \<^verbatim>\<open>createGraph\<close> does not throw and appends to the registry exactly one node per record:
  what was registered before stays as a prefix, the users follow in their input order,
  then the groups in theirs.
\<close>

theorem createGraph_one_node_per_record:
  assumes "\<forall>r\<in>set us. \<not> nullish r" and "\<forall>r\<in>set gs. \<not> nullish r"
  shows "fst (createGraph pos st (Reply su (Some (JArr us))) (Reply sg (Some (JArr gs)))) = None \<and>
    (\<exists>new. nodes (snd (createGraph pos st (Reply su (Some (JArr us))) (Reply sg (Some (JArr gs)))))
              = nodes st @ new \<and>
           length new = length us + length gs \<and>
           map userData new = map user_userData us @ map group_userData gs)"
  using createGraph_arrays(1,2) [OF users_fetchNodes_array groups_fetchNodes_array assms, of pos st su sg]
  by (simp add: map_userData_spheres length_spheres)

text \<open>
  The theorem at two user records and one group record.
\<close>

theorem createGraph_one_node_per_record_witness:
  "\<not> nullish (JObj [(''id'', JNum 1)]) \<and> \<not> nullish (JObj [(''user_id'', JNum 2)]) \<and>
   \<not> nullish (JObj [(''group_id'', JNum 7)]) \<and>
   fst (createGraph (\<lambda>i. i) (init_state :: nat state)
     (Reply 200 (Some (JArr [JObj [(''id'', JNum 1)], JObj [(''user_id'', JNum 2)]])))
     (Reply 200 (Some (JArr [JObj [(''group_id'', JNum 7)]])))) = None \<and>
   length (nodes (snd (createGraph (\<lambda>i. i) (init_state :: nat state)
     (Reply 200 (Some (JArr [JObj [(''id'', JNum 1)], JObj [(''user_id'', JNum 2)]])))
     (Reply 200 (Some (JArr [JObj [(''group_id'', JNum 7)]])))))) = 3"
  using createGraph_one_node_per_record
    [of "[JObj [(''id'', JNum 1)], JObj [(''user_id'', JNum 2)]]" "[JObj [(''group_id'', JNum 7)]]"
        "\<lambda>i. i" "init_state :: nat state" 200 200]
  by (auto simp add: nullish_def init_state_def)

text \<open>
  Claim C8, a counterexample to the claim as stated. The user record
  \<^verbatim>\<open>{user_id: 0, id: 5}\<close> has the kind-specific field, with value \<open>0\<close>; the node that
  \<^verbatim>\<open>createGraph\<close> builds from it has the identity \<open>5\<close>, the value of the generic \<^verbatim>\<open>id\<close>
  field.
\<close>

theorem identity_present_but_falsy_counterexample:
  "map_of [(''user_id'', JNum 0), (''id'', JNum 5)] ''user_id'' = Some (JNum 0) \<and>
   map (\<lambda>n. lookup (userData n) ''user_id'')
     (nodes (snd (createGraph (\<lambda>i. i) (init_state :: nat state)
        (Reply 200 (Some (JArr [JObj [(''user_id'', JNum 0), (''id'', JNum 5)]])))
        (Reply 200 (Some (JArr [])))))) = [JNum 5] \<and>
   field (JObj [(''user_id'', JNum 0), (''id'', JNum 5)]) ''id'' = JNum 5"
  by (simp add: eval_defs)

text \<open>
  Claim C8, as amended. For arrays of user and group records (none of them \<^verbatim>\<open>null\<close>),
  the identity of each node built is the kind-specific id field of its record
  (\<^verbatim>\<open>user_id\<close> for a user, \<^verbatim>\<open>group_id\<close> for a group) when that field is truthy, and the
  generic \<^verbatim>\<open>id\<close> field otherwise: when the kind-specific field is absent, and also when
  it is present with a falsy value.
\<close>

theorem node_identity_or_fallback:
  assumes "\<forall>r\<in>set us. \<not> nullish r" and "\<forall>r\<in>set gs. \<not> nullish r"
  shows "map (\<lambda>n. lookup (userData n) ''user_id'')
      (take (length us) (nodes (snd (createGraph pos init_state
          (Reply su (Some (JArr us))) (Reply sg (Some (JArr gs))))))) =
    map (\<lambda>r. if truthy (field r ''user_id'') then field r ''user_id'' else field r ''id'') us \<and>
    map (\<lambda>n. lookup (userData n) ''group_id'')
      (drop (length us) (nodes (snd (createGraph pos init_state
          (Reply su (Some (JArr us))) (Reply sg (Some (JArr gs))))))) =
    map (\<lambda>r. if truthy (field r ''group_id'') then field r ''group_id'' else field r ''id'') gs"
proof -
  have u: "lookup (user_userData r) ''user_id'' =
      (if truthy (field r ''user_id'') then field r ''user_id'' else field r ''id'')" for r
    by (simp add: user_userData_def lookup_put js_or_def)
  have g: "lookup (group_userData r) ''group_id'' =
      (if truthy (field r ''group_id'') then field r ''group_id'' else field r ''id'')" for r
    by (simp add: group_userData_def lookup_put js_or_def)
  have ns: "nodes (snd (createGraph pos init_state (Reply su (Some (JArr us)))
        (Reply sg (Some (JArr gs))))) =
      spheres user_userData pos 0 us @ spheres group_userData pos (length us) gs"
    using createGraph_arrays(2) [OF users_fetchNodes_array groups_fetchNodes_array assms,
        of pos init_state su sg]
    by (simp add: init_state_def)
  show ?thesis
    by (simp add: ns length_spheres u g
        map_of_userData_spheres [where f = "\<lambda>d. lookup d ''user_id''"]
        map_of_userData_spheres [where f = "\<lambda>d. lookup d ''group_id''"])
qed

text \<open>
  The amended claim at a user record with both fields and a group record with \<^verbatim>\<open>id\<close> only.
\<close>

theorem node_identity_or_fallback_witness:
  "\<not> nullish (JObj [(''user_id'', JNum 4), (''id'', JNum 5)]) \<and>
   \<not> nullish (JObj [(''id'', JNum 6)]) \<and>
   map (\<lambda>n. lookup (userData n) ''user_id'')
      (take 1 (nodes (snd (createGraph (\<lambda>i. i) (init_state :: nat state)
          (Reply 200 (Some (JArr [JObj [(''user_id'', JNum 4), (''id'', JNum 5)]])))
          (Reply 200 (Some (JArr [JObj [(''id'', JNum 6)]]))))))) = [JNum 4] \<and>
   map (\<lambda>n. lookup (userData n) ''group_id'')
      (drop 1 (nodes (snd (createGraph (\<lambda>i. i) (init_state :: nat state)
          (Reply 200 (Some (JArr [JObj [(''user_id'', JNum 4), (''id'', JNum 5)]])))
          (Reply 200 (Some (JArr [JObj [(''id'', JNum 6)]]))))))) = [JNum 6]"
  using node_identity_or_fallback
    [of "[JObj [(''user_id'', JNum 4), (''id'', JNum 5)]]" "[JObj [(''id'', JNum 6)]]"
        "\<lambda>i. i :: nat" 200 200]
  by (simp add: nullish_def lookup_def)



section \<open>Resolution: claims C2, C4 and C10\<close>

text \<open>
  Claim C2, a counterexample to the claim as stated. In the example graph the second
  user node has the identity \<open>0\<close>, and the entry \<^verbatim>\<open>{user_id: 0}\<close> refers to the value \<open>0\<close>:
  the identity of a known node equals the reference value of the entry. Resolution draws
  no edge for it and warns.
\<close>

theorem falsy_identity_unmatched_counterexample:
  "lookup (userData (demo_node 1)) ''user_id'' = JNum 0 \<and>
   field (JObj [(''user_id'', JNum 0)]) ''user_id'' = JNum 0 \<and>
   demo_node 1 \<in> set (nodes demo_graph) \<and>
   fst (displayNodeInfo demo_graph (demo_node 0)
      (Reply 200 (Some (JObj [(''relationships'', JArr [JObj [(''user_id'', JNum 0)]])])))) = None \<and>
   lines (snd (displayNodeInfo demo_graph (demo_node 0)
      (Reply 200 (Some (JObj [(''relationships'', JArr [JObj [(''user_id'', JNum 0)]])]))))) = [] \<and>
   warnings (snd (displayNodeInfo demo_graph (demo_node 0)
      (Reply 200 (Some (JObj [(''relationships'', JArr [JObj [(''user_id'', JNum 0)]])]))))) =
     [NoRelationship (JObj [(''user_id'', JNum 0)])]"
  by (simp add: demo_node_def demo_graph_eq eval_defs)

text \<open>
  Claim C2, as amended. For a relationship list whose entries are not \<^verbatim>\<open>null\<close>,
  resolution does not throw and goes through the entries in their order. For each entry
  it draws a line from the selected node to the first node of the registry that has a
  truthy \<^verbatim>\<open>user_id\<close> strictly equal to the entry's \<^verbatim>\<open>user_id\<close>, or a truthy \<^verbatim>\<open>group_id\<close>
  strictly equal to the entry's \<^verbatim>\<open>group_id\<close>; an entry with no such node gets a warning and
  no line. The lines are added to the scene, and their number is the number of entries
  for which such a node exists.
\<close>

theorem resolution_draws_first_matches:
  assumes "relationships_of h = JArr rels" and "\<forall>rel\<in>set rels. \<not> nullish rel"
  shows "fst (displayNodeInfo st node h) = None \<and>
     map points (lines (snd (displayNodeInfo st node h))) =
       map (\<lambda>t. [position node, position t])
         (concat (map (\<lambda>rel. case List.find (refers_to rel) (nodes st) of
                               Some t \<Rightarrow> [t] | None \<Rightarrow> []) rels)) \<and>
     scene (snd (displayNodeInfo st node h)) =
       scene (clearConnections st) @ map Line (lines (snd (displayNodeInfo st node h))) \<and>
     length (lines (snd (displayNodeInfo st node h))) =
       length (filter (\<lambda>rel. \<exists>n\<in>set (nodes st). refers_to rel n) rels) \<and>
     warnings (snd (displayNodeInfo st node h)) =
       warnings st @ map NoRelationship
         (filter (\<lambda>rel. \<not> (\<exists>n\<in>set (nodes st). refers_to rel n)) rels)"
proof -
  have e: "resolution_error (nodes st) h = None"
    by (simp add: resolution_error_def assms(1) resolve_error_not_nullish [OF assms(2)])
  have t: "resolved_targets (nodes st) h = resolve (nodes st) rels"
    by (simp add: resolved_targets_def assms(1))
  have l: "lines (snd (displayNodeInfo st node h)) =
      mk_lines node (next_id st) (resolve (nodes st) rels)"
    by (simp add: displayNodeInfo_eq t)
  have 1: "fst (displayNodeInfo st node h) = None"
    by (simp add: displayNodeInfo_eq e)
  have 2: "map points (lines (snd (displayNodeInfo st node h))) =
       map (\<lambda>t. [position node, position t])
         (concat (map (\<lambda>rel. case List.find (refers_to rel) (nodes st) of
                               Some t \<Rightarrow> [t] | None \<Rightarrow> []) rels))"
    by (simp only: l map_points_mk_lines resolve_not_nullish [OF assms(2)])
  have 3: "scene (snd (displayNodeInfo st node h)) =
       scene (clearConnections st) @ map Line (lines (snd (displayNodeInfo st node h)))"
    by (simp add: displayNodeInfo_eq)
  have 4: "length (lines (snd (displayNodeInfo st node h))) =
       length (filter (\<lambda>rel. \<exists>n\<in>set (nodes st). refers_to rel n) rels)"
    by (simp only: l length_mk_lines length_resolve_not_nullish [OF assms(2)])
  have 5: "warnings (snd (displayNodeInfo st node h)) =
       warnings st @ map NoRelationship
         (filter (\<lambda>rel. \<not> (\<exists>n\<in>set (nodes st). refers_to rel n)) rels)"
    by (simp add: displayNodeInfo_eq assms(1) unresolved_not_nullish [OF assms(2)])
  from 1 2 3 4 5 show ?thesis by blast
qed

text \<open>
  The amended claim at the example graph, its first node and the example relationships.
\<close>

theorem resolution_draws_first_matches_witness:
  "relationships_of demo_relationships =
     JArr [JObj [(''group_id'', JNum 7)], JObj [(''user_id'', JNum 0)], JObj [(''user_id'', JNum 1)]] \<and>
   \<not> nullish (JObj [(''group_id'', JNum 7)]) \<and> \<not> nullish (JObj [(''user_id'', JNum 0)]) \<and>
   \<not> nullish (JObj [(''user_id'', JNum 1)]) \<and>
   fst (displayNodeInfo demo_graph (demo_node 0) demo_relationships) = None \<and>
   map points (lines (snd (displayNodeInfo demo_graph (demo_node 0) demo_relationships))) =
     [[0, 2], [0, 0]] \<and>
   length (lines (snd (displayNodeInfo demo_graph (demo_node 0) demo_relationships))) = 2 \<and>
   warnings (snd (displayNodeInfo demo_graph (demo_node 0) demo_relationships)) =
     [NoRelationship (JObj [(''user_id'', JNum 0)])]"
proof -
  have r: "relationships_of demo_relationships =
     JArr [JObj [(''group_id'', JNum 7)], JObj [(''user_id'', JNum 0)], JObj [(''user_id'', JNum 1)]]"
    by (simp add: demo_relationships_def relationships_of_def logFetch_def lookup_def)
  have n: "\<forall>rel\<in>set [JObj [(''group_id'', JNum 7)], JObj [(''user_id'', JNum 0)],
      JObj [(''user_id'', JNum 1)]]. \<not> nullish rel"
    by (simp add: nullish_def)
  show ?thesis
    using resolution_draws_first_matches [OF r n, of demo_graph "demo_node 0"] r
    by (simp add: nullish_def demo_node_def demo_graph_eq refers_to_def lookup_def)
qed

text \<open>
  Claim C4, a counterexample to the claim as stated. A response of status 404 whose body
  parses is not turned into \<^verbatim>\<open>null\<close>: \<^verbatim>\<open>logFetch\<close> returns the body. And for a body without
  a relationship list (this one, or \<^verbatim>\<open>{}\<close>) \<^verbatim>\<open>relationships\<close> is \<^verbatim>\<open>undefined\<close>, calling its
  \<^verbatim>\<open>forEach\<close> throws, and the info panel is not shown.
\<close>

theorem error_body_or_missing_list_counterexample:
  "logFetch (Reply 404 (Some (JObj [(''detail'', JStr ''Not found'')]))) =
     JObj [(''detail'', JStr ''Not found'')] \<and>
   fst (displayNodeInfo demo_graph (demo_node 0)
     (Reply 404 (Some (JObj [(''detail'', JStr ''Not found'')])))) = Some TypeError \<and>
   relationships_of (Reply 200 (Some (JObj []))) = JUndefined \<and>
   fst (displayNodeInfo demo_graph (demo_node 0) (Reply 200 (Some (JObj [])))) = Some TypeError \<and>
   node_info (snd (displayNodeInfo demo_graph (demo_node 0) (Reply 200 (Some (JObj []))))) = None"
  by (simp add: demo_node_def demo_graph_eq eval_defs)

text \<open>
  Claim C4, as amended. A relationship request that fails in transport or whose body
  does not parse yields \<^verbatim>\<open>null\<close>. Whenever \<^verbatim>\<open>logFetch\<close> yields \<^verbatim>\<open>null\<close> (or another falsy
  value), \<^verbatim>\<open>displayNodeInfo\<close> does not throw, adds no line to the cleared scene and shows
  the info panel; so no edge is drawn when the lines of the scene were the tracked ones.
\<close>

theorem no_data_draws_nothing:
  "(failed h \<longrightarrow> logFetch h = JNull) \<and>
   (\<not> truthy (logFetch h) \<longrightarrow>
      fst (displayNodeInfo st node h) = None \<and>
      lines (snd (displayNodeInfo st node h)) = [] \<and>
      scene (snd (displayNodeInfo st node h)) = scene (clearConnections st) \<and>
      node_info (snd (displayNodeInfo st node h)) = Some (info_content (userData node)) \<and>
      (drawn (scene st) = lines st \<longrightarrow> drawn (scene (snd (displayNodeInfo st node h))) = []))"
proof -
  have a: "failed h \<longrightarrow> logFetch h = JNull"
    by (simp add: logFetch_failed)
  have b: "fst (displayNodeInfo st node h) = None \<and>
      lines (snd (displayNodeInfo st node h)) = [] \<and>
      scene (snd (displayNodeInfo st node h)) = scene (clearConnections st) \<and>
      node_info (snd (displayNodeInfo st node h)) = Some (info_content (userData node)) \<and>
      (drawn (scene st) = lines st \<longrightarrow> drawn (scene (snd (displayNodeInfo st node h))) = [])"
    if "\<not> truthy (logFetch h)"
    using relationships_of_falsy [OF that]
    by (simp add: displayNodeInfo_eq resolution_error_def resolved_targets_def
        clearConnections_fields)
  from a b show ?thesis by blast
qed

text \<open>
  The amended claim at a transport failure, for the first node of the example graph.
\<close>

theorem no_data_draws_nothing_witness:
  "failed NetworkError \<and> logFetch NetworkError = JNull \<and> \<not> truthy (logFetch NetworkError) \<and>
   drawn (scene demo_graph) = lines demo_graph \<and>
   fst (displayNodeInfo demo_graph (demo_node 0) NetworkError) = None \<and>
   lines (snd (displayNodeInfo demo_graph (demo_node 0) NetworkError)) = [] \<and>
   drawn (scene (snd (displayNodeInfo demo_graph (demo_node 0) NetworkError))) = []"
proof -
  have d: "drawn (scene demo_graph) = lines demo_graph"
    by (simp add: demo_graph_eq)
  have f: "failed NetworkError" by simp
  have l: "logFetch NetworkError = JNull" by (simp add: logFetch_def)
  have t: "\<not> truthy (logFetch NetworkError)" by (simp add: l)
  show ?thesis
    using no_data_draws_nothing [of NetworkError demo_graph "demo_node 0"] d f t l
    by blast
qed

text \<open>
  Claim C10. A node whose identity (\<^verbatim>\<open>user_id || group_id\<close>, as line 118 reads it) is
  falsy is never the node that \<^verbatim>\<open>nodes.find\<close> returns, whatever the entry refers to, and
  is never among the targets of a resolution.
\<close>

theorem falsy_identity_never_target:
  assumes "\<not> truthy (node_identity (userData n))"
  shows "find_node rel ns \<noteq> Inr (Some n) \<and> n \<notin> set (resolved_targets ns h)"
proof -
  have "find_node rel ns \<noteq> Inr (Some n)"
    using assms find_node_truthy [of rel ns n] by blast
  moreover have "n \<notin> set (resolved_targets ns h)"
    using assms resolve_truthy [of n ns]
    by (cases "relationships_of h") (auto simp: resolved_targets_def)
  ultimately show ?thesis by blast
qed

text \<open>
  The theorem at the second user node of the example graph, whose identity is \<open>0\<close>, and
  the entry \<^verbatim>\<open>{user_id: 0}\<close>, whose reference value equals that identity.
\<close>

theorem falsy_identity_never_target_witness:
  "\<not> truthy (node_identity (userData (demo_node 1))) \<and>
   lookup (userData (demo_node 1)) ''user_id'' = field (JObj [(''user_id'', JNum 0)]) ''user_id'' \<and>
   find_node (JObj [(''user_id'', JNum 0)]) (nodes demo_graph) \<noteq> Inr (Some (demo_node 1)) \<and>
   demo_node 1 \<notin> set (resolved_targets (nodes demo_graph) demo_relationships)"
proof -
  have a: "\<not> truthy (node_identity (userData (demo_node 1)))"
    by (simp add: demo_node_def demo_graph_eq node_identity_def js_or_def lookup_def)
  have b: "lookup (userData (demo_node 1)) ''user_id'' = field (JObj [(''user_id'', JNum 0)]) ''user_id''"
    by (simp add: demo_node_def demo_graph_eq lookup_def)
  show ?thesis
    using falsy_identity_never_target [OF a, of "JObj [(''user_id'', JNum 0)]" "nodes demo_graph"
        demo_relationships] a b
    by simp
qed

section \<open>Selection: claims C1 and C7\<close>

text \<open>
  Claim C1, a counterexample to the claim as stated. A node is picked, then empty space
  is clicked before the relationship request is answered, then the answer arrives: no
  node is selected, two edges are drawn and the info panel exists. And when a second
  node is picked before the first answer arrives, the edges of the first selection stay
  drawn while the second node is selected, although its own resolution yields none.
\<close>

theorem late_answer_counterexample:
  "selectedNode (foldl step demo_graph
      [Click (Some (demo_node 0)), Click None, Arrive 0 demo_relationships]) = None \<and>
   map points (drawn (scene (foldl step demo_graph
      [Click (Some (demo_node 0)), Click None, Arrive 0 demo_relationships]))) = [[0, 2], [0, 0]] \<and>
   node_info (foldl step demo_graph
      [Click (Some (demo_node 0)), Click None, Arrive 0 demo_relationships]) \<noteq> None \<and>
   selectedNode (foldl step demo_graph
      [Click (Some (demo_node 0)), Click (Some (demo_node 2)),
       Arrive 0 demo_relationships, Arrive 0 NetworkError]) = Some (demo_node 2) \<and>
   map points (drawn (scene (foldl step demo_graph
      [Click (Some (demo_node 0)), Click (Some (demo_node 2)),
       Arrive 0 demo_relationships, Arrive 0 NetworkError]))) = [[0, 2], [0, 0]] \<and>
   overlay (nodes demo_graph) (demo_node 2) NetworkError = []"
  by (simp add: demo_node_def demo_graph_eq demo_relationships_def eval_defs overlay_def
      resolved_targets_def)

text \<open>
  Claim C1, as amended. In a run where the relationship request of each pick is answered
  before the next event, after every pick: if no node is selected, no edge is drawn and
  the info panel does not exist; a pick that hits nothing leaves no node selected; and
  after a pick of node \<open>n\<close> answered by \<open>h\<close>, \<open>n\<close> is selected and the drawn edges are
  exactly the overlay of that resolution, with none left from an earlier selection.
\<close>

theorem selection_invariant_of_answered_picks:
  "(selectedNode (run pos ru rg ps) = None \<longrightarrow>
      drawn (scene (run pos ru rg ps)) = [] \<and> node_info (run pos ru rg ps) = None) \<and>
   selectedNode (run pos ru rg (qs @ [(None, h)])) = None \<and>
   selectedNode (run pos ru rg (qs @ [(Some n, h)])) = Some n \<and>
   map points (drawn (scene (run pos ru rg (qs @ [(Some n, h)])))) =
     overlay (nodes (run pos ru rg (qs @ [(Some n, h)]))) n h"
proof -
  have "consistent (run pos ru rg ps)" by (rule run_consistent)
  then have a: "selectedNode (run pos ru rg ps) = None \<longrightarrow>
      drawn (scene (run pos ru rg ps)) = [] \<and> node_info (run pos ru rg ps) = None"
    by (simp add: consistent_def)
  have q: "consistent (run pos ru rg qs)" by (rule run_consistent)
  have r: "run pos ru rg (qs @ [p]) = pick (run pos ru rg qs) p" for p
    by (simp add: run_def)
  have b: "selectedNode (run pos ru rg (qs @ [(None, h)])) = None"
    by (simp add: r pick_nothing(3) [OF q])
  have c: "selectedNode (run pos ru rg (qs @ [(Some n, h)])) = Some n"
    by (simp add: r pick_node(3) [OF q])
  have d: "map points (drawn (scene (run pos ru rg (qs @ [(Some n, h)])))) =
     overlay (nodes (run pos ru rg (qs @ [(Some n, h)]))) n h"
    by (simp add: r pick_node(4) [OF q] pick_node(2) [OF q])
  from a b c d show ?thesis by blast
qed

text \<open>
  The amended claim at the example graph: after a pick and a click on empty space, and
  after a pick that follows another one.
\<close>

theorem selection_invariant_of_answered_picks_witness:
  "selectedNode (run (\<lambda>i. i) demo_users demo_groups
      [(Some (demo_node 0), demo_relationships), (None, NetworkError)]) = None \<and>
   drawn (scene (run (\<lambda>i. i) demo_users demo_groups
      [(Some (demo_node 0), demo_relationships), (None, NetworkError)])) = [] \<and>
   node_info (run (\<lambda>i. i) demo_users demo_groups
      [(Some (demo_node 0), demo_relationships), (None, NetworkError)]) = None \<and>
   selectedNode (run (\<lambda>i. i) demo_users demo_groups
      [(Some (demo_node 2), NetworkError), (Some (demo_node 0), demo_relationships)]) = Some (demo_node 0) \<and>
   map points (drawn (scene (run (\<lambda>i. i) demo_users demo_groups
      [(Some (demo_node 2), NetworkError), (Some (demo_node 0), demo_relationships)]))) = [[0, 2], [0, 0]]"
proof -
  have sel: "selectedNode (run (\<lambda>i. i) demo_users demo_groups
      [(Some (demo_node 0), demo_relationships), (None, NetworkError)]) = None"
    by (simp add: run_demo demo_node_def demo_graph_eq demo_relationships_def eval_defs)
  have ov: "overlay (nodes demo_graph) (demo_node 0) demo_relationships = [[0, 2], [0, 0]]"
    by (simp add: demo_node_def demo_graph_eq demo_relationships_def eval_defs overlay_def
        resolved_targets_def)
  have nd: "nodes (run (\<lambda>i. i) demo_users demo_groups qs) = nodes demo_graph" for qs
    using foldl_pick_nodes [OF consistent_loaded, of "\<lambda>i. i" demo_users demo_groups qs]
    by (simp add: run_def demo_graph_def)
  show ?thesis
    using selection_invariant_of_answered_picks
      [where pos = "\<lambda>i. i" and ru = demo_users and rg = demo_groups
         and ps = "[(Some (demo_node 0), demo_relationships), (None, NetworkError)]"
         and qs = "[(Some (demo_node 2), NetworkError)]" and n = "demo_node 0"
         and h = demo_relationships]
      sel ov nd
    by simp
qed

text \<open>
  Claim C7. A click on a node sends a relationship request in every state, also when
  that node is the selected one. And from a state at rest, picking the same node twice
  with the same answer sends two requests, leaves the node selected, and gives the same
  drawn edges and the same info panel both times.
\<close>

theorem repick_fetches_again:
  "requests (step st (Click (Some n))) = requests st @ [relationship_request n] \<and>
   in_flight (step st (Click (Some n))) = in_flight st @ [n] \<and>
   (consistent st \<longrightarrow>
     selectedNode (pick st (Some n, h)) = Some n \<and>
     requests (pick (pick st (Some n, h)) (Some n, h)) =
       requests st @ [relationship_request n, relationship_request n] \<and>
     selectedNode (pick (pick st (Some n, h)) (Some n, h)) = Some n \<and>
     map points (drawn (scene (pick (pick st (Some n, h)) (Some n, h)))) =
       map points (drawn (scene (pick st (Some n, h)))) \<and>
     node_info (pick (pick st (Some n, h)) (Some n, h)) = node_info (pick st (Some n, h)))"
proof -
  have a: "requests (step st (Click (Some n))) = requests st @ [relationship_request n]"
    by (simp add: step_def onDocumentClick_def displayNodeInfo_begin_def Let_def
        clearSelection_def clearConnections_fields split: option.splits)
  have b: "in_flight (step st (Click (Some n))) = in_flight st @ [n]"
    by (simp add: step_def onDocumentClick_def displayNodeInfo_begin_def Let_def
        clearSelection_def clearConnections_fields split: option.splits)
  have c: "selectedNode (pick st (Some n, h)) = Some n \<and>
     requests (pick (pick st (Some n, h)) (Some n, h)) =
       requests st @ [relationship_request n, relationship_request n] \<and>
     selectedNode (pick (pick st (Some n, h)) (Some n, h)) = Some n \<and>
     map points (drawn (scene (pick (pick st (Some n, h)) (Some n, h)))) =
       map points (drawn (scene (pick st (Some n, h)))) \<and>
     node_info (pick (pick st (Some n, h)) (Some n, h)) = node_info (pick st (Some n, h))"
    if st: "consistent st"
  proof -
    have c1: "consistent (pick st (Some n, h))"
      by (rule pick_node(1) [OF st])
    have n1: "nodes (pick st (Some n, h)) = nodes st"
      by (rule pick_node(2) [OF st])
    show ?thesis
      by (simp add: pick_node(3-6) [OF st] pick_node(3-6) [OF c1] n1)
  qed
  from a b c show ?thesis by blast
qed

text \<open>
  The theorem at the example graph, its first node picked twice.
\<close>

theorem repick_fetches_again_witness:
  "consistent demo_graph \<and>
   selectedNode (pick demo_graph (Some (demo_node 0), demo_relationships)) = Some (demo_node 0) \<and>
   requests (pick (pick demo_graph (Some (demo_node 0), demo_relationships))
               (Some (demo_node 0), demo_relationships)) =
     [GetRelationships (JNum 1) (JStr ''user''), GetRelationships (JNum 1) (JStr ''user'')] \<and>
   map points (drawn (scene (pick (pick demo_graph (Some (demo_node 0), demo_relationships))
               (Some (demo_node 0), demo_relationships)))) = [[0, 2], [0, 0]]"
proof -
  have c: "consistent demo_graph"
    by (simp add: demo_graph_def consistent_loaded)
  have r: "relationship_request (demo_node 0) = GetRelationships (JNum 1) (JStr ''user'')"
    by (simp add: demo_node_def demo_graph_eq eval_defs)
  have q: "requests demo_graph = []"
    by (simp add: demo_graph_eq)
  have ov: "map points (drawn (scene (pick demo_graph (Some (demo_node 0), demo_relationships)))) =
      [[0, 2], [0, 0]]"
    by (simp add: demo_node_def demo_graph_eq demo_relationships_def eval_defs)
  show ?thesis
    using repick_fetches_again [of demo_graph "demo_node 0" demo_relationships] c r q ov by simp
qed

end
